theory Spec2Isabelle
  imports Main "HOL-Library.Word"
begin

section \<open>The ferro string runtime (runtime.c)\<close>

text \<open>
  The runtime is fifty lines of C over \<^verbatim>\<open>malloc\<close>, \<^verbatim>\<open>memcpy\<close> and
  \<^verbatim>\<open>printf\<close>. The embedding makes the memory explicit:
  \<^item> a byte is a \<^typ>\<open>char\<close> (eight bits); a byte of a buffer that was never written
    is indeterminate, \<open>None\<close>;
  \<^item> the byte memory is a list of blocks, one per allocation; a pointer is null or a
    block number with an offset into the block;
  \<^item> the \<^verbatim>\<open>fs_String\<close> objects that callers pass by address live in a store of
    their own, since no \<^verbatim>\<open>char*\<close> of the runtime can point into them;
  \<^item> \<^verbatim>\<open>int\<close> is a 32-bit word read as two's complement, whose addition wraps
    around, which is what the compiled code does; \<^verbatim>\<open>size_t\<close> has 64 bits;
  \<^item> an access outside the bounds of a block, through a null pointer, or to an
    indeterminate byte where its value is needed, is an error value;
  \<^item> whether the platform allocator finds memory is an argument of every operation
    that allocates.
\<close>

subsection \<open>Data\<close>

type_synonym int32 = "32 word"

type_synonym cell = "char option"

type_synonym block = "cell list"

datatype pointer = Null | Ptr nat nat

record fs_String =
  ptr :: pointer
  len :: int32
  cap :: int32

record world =
  objs :: "fs_String list"
  mem :: "block list"
  out :: "char list"

datatype fault = Bad_Pointer | Out_Of_Bounds | Overlap | Indeterminate

subsection \<open>The C library\<close>

text \<open>The conversion of an \<^verbatim>\<open>int\<close> argument to \<^verbatim>\<open>size_t\<close>.\<close>

definition size_t_of :: "int32 \<Rightarrow> nat" where
  "size_t_of i = (if 0 \<le> sint i then nat (sint i) else nat (2 ^ 64 + sint i))"

text \<open>
  \<^verbatim>\<open>malloc(n)\<close>: a null pointer when the allocator fails, else a pointer to the start
  of a new block of \<open>n\<close> indeterminate bytes.
\<close>

definition malloc :: "bool \<Rightarrow> nat \<Rightarrow> block list \<Rightarrow> pointer \<times> block list" where
  "malloc ok n m = (if ok then (Ptr (length m) 0, m @ [replicate n None]) else (Null, m))"

text \<open>\<^verbatim>\<open>p[i] = c\<close>.\<close>

definition store_byte :: "pointer \<Rightarrow> int \<Rightarrow> char \<Rightarrow> block list \<Rightarrow> fault + block list" where
  "store_byte p i c m =
     (case p of
        Null \<Rightarrow> Inl Bad_Pointer
      | Ptr b off \<Rightarrow>
          if \<not> b < length m then Inl Bad_Pointer
          else if 0 \<le> int off + i \<and> int off + i < int (length (m ! b))
            then Inr (m[b := (m ! b)[nat (int off + i) := Some c]])
            else Inl Out_Of_Bounds)"

text \<open>\<^verbatim>\<open>p + i\<close>: the result stays inside the block or one past its end.\<close>

definition ptr_add :: "pointer \<Rightarrow> int \<Rightarrow> block list \<Rightarrow> fault + pointer" where
  "ptr_add p i m =
     (case p of
        Null \<Rightarrow> Inl Bad_Pointer
      | Ptr b off \<Rightarrow>
          if \<not> b < length m then Inl Bad_Pointer
          else if 0 \<le> int off + i \<and> int off + i \<le> int (length (m ! b))
            then Inr (Ptr b (nat (int off + i)))
            else Inl Out_Of_Bounds)"

text \<open>
  \<^verbatim>\<open>memcpy(dst, src, n)\<close>: both ranges lie inside their blocks and do not overlap;
  the bytes are copied as they are, indeterminate ones included.
\<close>

definition memcpy :: "pointer \<Rightarrow> pointer \<Rightarrow> nat \<Rightarrow> block list \<Rightarrow> fault + block list" where
  "memcpy dst src n m =
     (case dst of
        Null \<Rightarrow> Inl Bad_Pointer
      | Ptr d i \<Rightarrow>
          (case src of
             Null \<Rightarrow> Inl Bad_Pointer
           | Ptr s j \<Rightarrow>
               if \<not> (d < length m \<and> s < length m) then Inl Bad_Pointer
               else if \<not> (i + n \<le> length (m ! d) \<and> j + n \<le> length (m ! s)) then Inl Out_Of_Bounds
               else if d = s \<and> i < j + n \<and> j < i + n then Inl Overlap
               else Inr (m[d := take i (m ! d) @ take n (drop j (m ! s)) @ drop (i + n) (m ! d)])))"

text \<open>
  What \<^verbatim>\<open>%.*s\<close> writes, given the precision (\<open>None\<close> when it is negative, which
  \<^verbatim>\<open>printf\<close> takes as no precision) and the bytes from the pointer to the end of its
  block: the bytes before the first zero byte, and no more of them than the precision.
\<close>

fun print_chars :: "nat option \<Rightarrow> cell list \<Rightarrow> fault + char list" where
  "print_chars (Some 0) cs = Inr []"
| "print_chars p [] = Inl Out_Of_Bounds"
| "print_chars p (None # cs) = Inl Indeterminate"
| "print_chars p (Some c # cs) =
     (if c = CHR 0x00 then Inr []
      else (case print_chars (map_option (\<lambda>n. n - 1) p) cs of
              Inl e \<Rightarrow> Inl e
            | Inr cs' \<Rightarrow> Inr (c # cs')))"

definition printf_s :: "int \<Rightarrow> pointer \<Rightarrow> block list \<Rightarrow> fault + char list" where
  "printf_s prec p m =
     (case p of
        Null \<Rightarrow> Inl Bad_Pointer
      | Ptr b off \<Rightarrow>
          if b < length m \<and> off \<le> length (m ! b)
          then print_chars (if prec < 0 then None else Some (nat prec)) (drop off (m ! b))
          else Inl Bad_Pointer)"

text \<open>Reading the object behind an \<^verbatim>\<open>fs_String*\<close>.\<close>

definition deref :: "world \<Rightarrow> nat \<Rightarrow> fault + fs_String" where
  "deref w r = (if r < length (objs w) then Inr (objs w ! r) else Inl Bad_Pointer)"

subsection \<open>The four operations\<close>

text \<open>
  \<^verbatim>\<open>fs_string_alloc(size)\<close>: the buffer is \<^verbatim>\<open>malloc(size + 1)\<close>, the length 0, the
  capacity \<^verbatim>\<open>size\<close>; if the buffer is not null, its first byte is set to zero.
\<close>

definition fs_string_alloc :: "bool \<Rightarrow> int32 \<Rightarrow> world \<Rightarrow> fault + fs_String \<times> world" where
  "fs_string_alloc ok sz w =
     (let (p, m1) = malloc ok (size_t_of (sz + 1)) (mem w);
          s = \<lparr>ptr = p, len = 0, cap = sz\<rparr>
      in if p \<noteq> Null
         then (case store_byte p 0 (CHR 0x00) m1 of
                 Inl e \<Rightarrow> Inl e
               | Inr m2 \<Rightarrow> Inr (s, w\<lparr>mem := m2\<rparr>))
         else Inr (s, w\<lparr>mem := m1\<rparr>))"

text \<open>
  \<^verbatim>\<open>fs_string_from_literal(data, len)\<close>: allocate \<^verbatim>\<open>len\<close>; if the buffer is not null,
  \<^verbatim>\<open>memcpy(s.ptr, data, len)\<close>, a zero byte at \<^verbatim>\<open>s.ptr[len]\<close>, and the length is
  \<^verbatim>\<open>len\<close>.
\<close>

definition fs_string_from_literal ::
  "bool \<Rightarrow> pointer \<Rightarrow> int32 \<Rightarrow> world \<Rightarrow> fault + fs_String \<times> world" where
  "fs_string_from_literal ok data n w =
     (case fs_string_alloc ok n w of
        Inl e \<Rightarrow> Inl e
      | Inr (s, w1) \<Rightarrow>
          if ptr s \<noteq> Null
          then (case memcpy (ptr s) data (size_t_of n) (mem w1) of
                  Inl e \<Rightarrow> Inl e
                | Inr m2 \<Rightarrow>
                    (case store_byte (ptr s) (sint n) (CHR 0x00) m2 of
                       Inl e \<Rightarrow> Inl e
                     | Inr m3 \<Rightarrow> Inr (s\<lparr>len := n\<rparr>, w1\<lparr>mem := m3\<rparr>)))
          else Inr (s, w1))"

text \<open>
  \<^verbatim>\<open>fs_string_concat(s1, s2)\<close>: allocate \<^verbatim>\<open>new_len = s1->len + s2->len\<close>; if the buffer
  is not null, the two guarded copies
  \<^verbatim>\<open>if (s1->ptr) memcpy(s.ptr, s1->ptr, s1->len)\<close> and
  \<^verbatim>\<open>if (s2->ptr) memcpy(s.ptr + s1->len, s2->ptr, s2->len)\<close>, a zero byte at
  \<^verbatim>\<open>s.ptr[new_len]\<close>, and the length is \<^verbatim>\<open>new_len\<close>. The arguments are addresses of
  String Value objects.
\<close>

definition copy_first :: "fs_String \<Rightarrow> fs_String \<Rightarrow> block list \<Rightarrow> fault + block list" where
  "copy_first s s1 m =
     (if ptr s1 \<noteq> Null then memcpy (ptr s) (ptr s1) (size_t_of (len s1)) m else Inr m)"

definition copy_second ::
  "fs_String \<Rightarrow> fs_String \<Rightarrow> fs_String \<Rightarrow> block list \<Rightarrow> fault + block list" where
  "copy_second s s1 s2 m =
     (if ptr s2 \<noteq> Null
      then (case ptr_add (ptr s) (sint (len s1)) m of
              Inl e \<Rightarrow> Inl e
            | Inr q \<Rightarrow> memcpy q (ptr s2) (size_t_of (len s2)) m)
      else Inr m)"

definition fs_string_concat :: "bool \<Rightarrow> nat \<Rightarrow> nat \<Rightarrow> world \<Rightarrow> fault + fs_String \<times> world" where
  "fs_string_concat ok r1 r2 w =
     (case deref w r1 of
        Inl e \<Rightarrow> Inl e
      | Inr s1 \<Rightarrow>
          (case deref w r2 of
             Inl e \<Rightarrow> Inl e
           | Inr s2 \<Rightarrow>
               (let new_len = len s1 + len s2 in
                case fs_string_alloc ok new_len w of
                  Inl e \<Rightarrow> Inl e
                | Inr (s, w1) \<Rightarrow>
                    if ptr s \<noteq> Null
                    then (case copy_first s s1 (mem w1) of
                            Inl e \<Rightarrow> Inl e
                          | Inr m2 \<Rightarrow>
                              (case copy_second s s1 s2 m2 of
                                 Inl e \<Rightarrow> Inl e
                               | Inr m3 \<Rightarrow>
                                   (case store_byte (ptr s) (sint new_len) (CHR 0x00) m3 of
                                      Inl e \<Rightarrow> Inl e
                                    | Inr m4 \<Rightarrow> Inr (s\<lparr>len := new_len\<rparr>, w1\<lparr>mem := m4\<rparr>))))
                    else Inr (s, w1))))"

text \<open>
  \<^verbatim>\<open>fs_print_string(s)\<close>: with a buffer, \<^verbatim>\<open>printf\<close> of \<^verbatim>\<open>%.*s\<close> and a newline, the
  precision being \<^verbatim>\<open>s->len\<close>; without, \<^verbatim>\<open>printf\<close> of \<^verbatim>\<open>(null)\<close> and a newline.
\<close>

definition fs_print_string :: "nat \<Rightarrow> world \<Rightarrow> fault + world" where
  "fs_print_string r w =
     (case deref w r of
        Inl e \<Rightarrow> Inl e
      | Inr s \<Rightarrow>
          if ptr s \<noteq> Null
          then (case printf_s (sint (len s)) (ptr s) (mem w) of
                  Inl e \<Rightarrow> Inl e
                | Inr cs \<Rightarrow> Inr (w\<lparr>out := out w @ cs @ [CHR 0x0A]\<rparr>))
          else Inr (w\<lparr>out := out w @ ''(null)'' @ [CHR 0x0A]\<rparr>))"

subsection \<open>What the specification observes\<close>

text \<open>The \<open>n\<close> bytes that a pointer designates, and the byte \<open>k\<close> places after it.\<close>

definition bytes_at :: "block list \<Rightarrow> pointer \<Rightarrow> nat \<Rightarrow> cell list" where
  "bytes_at m p n = (case p of Null \<Rightarrow> [] | Ptr b off \<Rightarrow> take n (drop off (m ! b)))"

definition byte_at :: "block list \<Rightarrow> pointer \<Rightarrow> nat \<Rightarrow> cell" where
  "byte_at m p k =
     (case p of
        Null \<Rightarrow> None
      | Ptr b off \<Rightarrow> if b < length m \<and> off + k < length (m ! b) then (m ! b) ! (off + k) else None)"

text \<open>A pointer to \<open>n\<close> bytes of an allocated block.\<close>

definition readable :: "block list \<Rightarrow> pointer \<Rightarrow> nat \<Rightarrow> bool" where
  "readable m p n =
     (case p of Null \<Rightarrow> False | Ptr b off \<Rightarrow> b < length m \<and> off + n \<le> length (m ! b))"

text \<open>The length field as a number of bytes.\<close>

definition length_of :: "fs_String \<Rightarrow> nat" where
  "length_of s = nat (sint (len s))"

text \<open>The content of a String Value: the first \<open>len\<close> bytes of its buffer.\<close>

definition content :: "block list \<Rightarrow> fs_String \<Rightarrow> cell list" where
  "content m s = bytes_at m (ptr s) (length_of s)"

text \<open>
  A successfully constructed String Value: the handle is not null, the length is not
  negative, and the length field describes bytes of the buffer.
\<close>

definition constructed :: "block list \<Rightarrow> fs_String \<Rightarrow> bool" where
  "constructed m s = (0 \<le> sint (len s) \<and> readable m (ptr s) (length_of s))"

text \<open>The block that \<^verbatim>\<open>fs_string_alloc\<close> leaves behind: a zero byte, the rest indeterminate.\<close>

definition fresh_block :: "nat \<Rightarrow> block" where
  "fresh_block n = (replicate n None)[0 := Some (CHR 0x00)]"



text \<open>
  The caller keeps a returned value in a new variable of its own; the address of the
  variable is the number of objects there were before.
\<close>

definition keep :: "fs_String \<Rightarrow> world \<Rightarrow> world" where
  "keep s w = w\<lparr>objs := objs w @ [s]\<rparr>"

subsection \<open>A small world to run the operations in\<close>

text \<open>
  Five String Values: \<open>foo\<close> and \<open>bar\<close> as \<^verbatim>\<open>fs_string_from_literal\<close> builds them, a
  failed allocation of seven bytes, a null handle with a recorded length of two, and
  the three bytes \<open>a\<close>, zero, \<open>b\<close>; the last block is the literal \<open>hi\<close>.
\<close>

definition demo :: world where
  "demo =
     \<lparr>objs = [\<lparr>ptr = Ptr 0 0, len = 3, cap = 3\<rparr>,
              \<lparr>ptr = Ptr 1 0, len = 3, cap = 3\<rparr>,
              \<lparr>ptr = Null, len = 0, cap = 7\<rparr>,
              \<lparr>ptr = Null, len = 2, cap = 0\<rparr>,
              \<lparr>ptr = Ptr 2 0, len = 3, cap = 3\<rparr>],
      mem = [[Some CHR ''f'', Some CHR ''o'', Some CHR ''o'', Some CHR 0x00],
             [Some CHR ''b'', Some CHR ''a'', Some CHR ''r'', Some CHR 0x00],
             [Some CHR ''a'', Some CHR 0x00, Some CHR ''b'', Some CHR 0x00],
             [Some CHR ''h'', Some CHR ''i'', Some CHR 0x00]],
      out = []\<rparr>"

section \<open>Arithmetic of the length fields\<close>

lemma sint32_less: "sint (a :: int32) < 2147483648"
  using sint_lt [of a] by simp

lemma sint32_ge: "- 2147483648 \<le> sint (a :: int32)"
  using sint_ge [of a] by simp

lemma wrap_high: "(2147483648 :: int) \<le> k \<Longrightarrow> signed_take_bit 31 k \<le> k - 4294967296"
  using signed_take_bit_int_less_eq [of 31 k] by simp

lemma wrap_none: "(0 :: int) \<le> k \<Longrightarrow> k < 2147483648 \<Longrightarrow> signed_take_bit 31 k = k"
  by (rule signed_take_bit_int_eq_self) simp_all

text \<open>A sum of two non-negative lengths that is itself non-negative did not wrap.\<close>

lemma sint_add_nonneg:
  fixes a b :: int32
  assumes "0 \<le> sint a" "0 \<le> sint b" "0 \<le> sint (a + b)"
  shows "sint (a + b) = sint a + sint b"
proof -
  have eq: "sint (a + b) = signed_take_bit 31 (sint a + sint b)"
    by (simp add: sint_word_ariths)
  show ?thesis
  proof (cases "sint a + sint b < 2147483648")
    case True
    with assms(1,2) eq show ?thesis
      by (simp add: wrap_none)
  next
    case False
    then have "signed_take_bit 31 (sint a + sint b) \<le> sint a + sint b - 4294967296"
      by (intro wrap_high) simp
    with eq assms(3) sint32_less [of a] sint32_less [of b] show ?thesis
      by linarith
  qed
qed

lemma size_t_of_nonneg: "0 \<le> sint n \<Longrightarrow> size_t_of n = nat (sint n)"
  by (simp add: size_t_of_def)

text \<open>
  The request \<^verbatim>\<open>size + 1\<close> of a non-negative size is larger than the size, also at
  the largest \<^verbatim>\<open>int\<close>, where the sum wraps and is converted to a huge \<^verbatim>\<open>size_t\<close>.
\<close>

lemma size_t_of_succ:
  assumes "0 \<le> sint n"
  shows "nat (sint n) < size_t_of (n + 1)"
proof (cases "sint n + 1 < 2147483648")
  case True
  with assms have "sint (n + 1) = sint n + 1"
    by (simp add: sint_word_ariths wrap_none)
  with assms show ?thesis
    by (simp add: size_t_of_def)
next
  case False
  have eq: "sint (n + 1) = signed_take_bit 31 (sint n + 1)"
    by (simp add: sint_word_ariths)
  from False have "signed_take_bit 31 (sint n + 1) \<le> sint n + 1 - 4294967296"
    by (intro wrap_high) simp
  with eq sint32_less [of n] have neg: "sint (n + 1) < 0"
    by linarith
  with sint32_ge [of "n + 1"] sint32_less [of n] assms show ?thesis
    by (simp add: size_t_of_def)
qed

section \<open>The library calls on the newest block\<close>

lemma fs_string_alloc_False:
  "fs_string_alloc False sz w = Inr (\<lparr>ptr = Null, len = 0, cap = sz\<rparr>, w)"
  by (simp add: fs_string_alloc_def malloc_def)

lemma fs_string_alloc_True:
  "fs_string_alloc True sz w =
     (if size_t_of (sz + 1) = 0 then Inl Out_Of_Bounds
      else Inr (\<lparr>ptr = Ptr (length (mem w)) 0, len = 0, cap = sz\<rparr>,
                w\<lparr>mem := mem w @ [fresh_block (size_t_of (sz + 1))]\<rparr>))"
  by (simp add: fs_string_alloc_def malloc_def store_byte_def fresh_block_def)

lemma store_byte_last:
  "store_byte (Ptr (length M) 0) k c (M @ [B]) =
     (if 0 \<le> k \<and> k < int (length B) then Inr (M @ [B[nat k := Some c]])
      else Inl Out_Of_Bounds)"
  by (simp add: store_byte_def)

lemma ptr_add_last:
  "ptr_add (Ptr (length M) 0) k (M @ [B]) =
     (if 0 \<le> k \<and> k \<le> int (length B) then Inr (Ptr (length M) (nat k))
      else Inl Out_Of_Bounds)"
  by (simp add: ptr_add_def)

lemma memcpy_last:
  "b < length M \<Longrightarrow> memcpy (Ptr (length M) i) (Ptr b j) n (M @ [B]) =
     (if i + n \<le> length B \<and> j + n \<le> length (M ! b)
      then Inr (M @ [take i B @ take n (drop j (M ! b)) @ drop (i + n) B])
      else Inl Out_Of_Bounds)"
  by (auto simp add: memcpy_def nth_append)

lemma memcpy_last_frame:
  "memcpy (Ptr (length M) i) src n (M @ [B]) = Inr m' \<Longrightarrow>
     \<exists>B'. m' = M @ [B'] \<and> length B' = length B"
  by (auto simp add: memcpy_def nth_append split: pointer.splits if_splits)

lemma length_fresh_block [simp]: "length (fresh_block n) = n"
  by (simp add: fresh_block_def)

text \<open>A chain of calls returns normally only if each call does.\<close>

lemma fault_case_Inr_iff:
  "((case r of Inl e \<Rightarrow> Inl e | Inr v \<Rightarrow> f v) = Inr z) \<longleftrightarrow> (\<exists>v. r = Inr v \<and> f v = Inr z)"
  by (cases r) simp_all

section \<open>Allocation\<close>

lemma byte_at_last:
  "k < length B \<Longrightarrow> byte_at (M @ [B]) (Ptr (length M) 0) k = B ! k"
  by (simp add: byte_at_def)

lemma bytes_at_last: "bytes_at (M @ [B]) (Ptr (length M) 0) k = take k B"
  by (simp add: bytes_at_def)

text \<open>With memory available, every non-negative size is allocated.\<close>

lemma fs_string_alloc_returns:
  assumes "0 \<le> sint n"
  shows "fs_string_alloc True n w =
    Inr (\<lparr>ptr = Ptr (length (mem w)) 0, len = 0, cap = n\<rparr>,
         w\<lparr>mem := mem w @ [fresh_block (size_t_of (n + 1))]\<rparr>)"
  using size_t_of_succ [OF assms] by (simp add: fs_string_alloc_True)

text \<open>
  Claim C5. For every non-negative \<open>n\<close>, an allocation of \<open>n\<close> bytes that returns a
  non-null handle returns length 0 and capacity \<open>n\<close>, and the byte at offset 0 of the
  buffer is zero.
\<close>

theorem fs_string_alloc_success:
  assumes "0 \<le> sint n" and "fs_string_alloc ok n w = Inr (s, w')" and "ptr s \<noteq> Null"
  shows "len s = 0 \<and> cap s = n \<and> byte_at (mem w') (ptr s) 0 = Some (CHR 0x00)"
proof (cases ok)
  case False
  with assms(2,3) show ?thesis
    by (auto simp add: fs_string_alloc_False)
next
  case True
  have "0 < size_t_of (n + 1)"
    using size_t_of_succ [OF assms(1)] by simp
  then have "fresh_block (size_t_of (n + 1)) ! 0 = Some (CHR 0x00)"
    by (simp add: fresh_block_def)
  with True assms(2) \<open>0 < size_t_of (n + 1)\<close> show ?thesis
    by (auto simp add: fs_string_alloc_returns [OF assms(1)] byte_at_last)
qed

theorem fs_string_alloc_success_witness:
  "0 \<le> sint (0 :: int32) \<and>
   fs_string_alloc True 0 demo =
     Inr (\<lparr>ptr = Ptr 4 0, len = 0, cap = 0\<rparr>, demo\<lparr>mem := mem demo @ [[Some CHR 0x00]]\<rparr>) \<and>
   byte_at (mem demo @ [[Some CHR 0x00]]) (Ptr 4 0) 0 = Some (CHR 0x00)"
proof -
  have n: "0 \<le> sint (0 :: int32)"
    by simp
  have run: "fs_string_alloc True 0 demo =
      Inr (\<lparr>ptr = Ptr 4 0, len = 0, cap = 0\<rparr>, demo\<lparr>mem := mem demo @ [[Some CHR 0x00]]\<rparr>)"
    by (simp add: demo_def fs_string_alloc_def malloc_def size_t_of_def store_byte_def)
  have nn: "ptr \<lparr>ptr = Ptr 4 0, len = 0, cap = 0\<rparr> \<noteq> Null"
    by simp
  from fs_string_alloc_success [OF n run nn] n run show ?thesis
    by simp
qed

text \<open>
  Claim C6. When the allocator fails, allocate returns a null handle, length 0 and the
  requested size as capacity, whatever the size; construction from a literal then
  returns that same value, copies nothing, changes nothing and raises no error.
\<close>

theorem allocation_failure:
  "fs_string_alloc False n w = Inr (\<lparr>ptr = Null, len = 0, cap = n\<rparr>, w) \<and>
   fs_string_from_literal False data n w = Inr (\<lparr>ptr = Null, len = 0, cap = n\<rparr>, w)"
  by (simp add: fs_string_from_literal_def fs_string_alloc_False)

section \<open>Construction from a literal\<close>

lemma length_bytes_at: "readable m p k \<Longrightarrow> length (bytes_at m p k) = k"
  by (cases p) (auto simp add: readable_def bytes_at_def)

text \<open>With memory available, every readable literal of non-negative length is built.\<close>

lemma fs_string_from_literal_returns:
  assumes n: "0 \<le> sint n" and r: "readable (mem w) data (nat (sint n))"
  shows "fs_string_from_literal True data n w =
    Inr (\<lparr>ptr = Ptr (length (mem w)) 0, len = n, cap = n\<rparr>,
         w\<lparr>mem := mem w @
           [(bytes_at (mem w) data (nat (sint n)) @
             drop (nat (sint n)) (fresh_block (size_t_of (n + 1))))
            [nat (sint n) := Some (CHR 0x00)]]\<rparr>)"
proof -
  from r obtain d j where data: "data = Ptr d j" and d: "d < length (mem w)"
    and fits: "j + nat (sint n) \<le> length (mem w ! d)"
    by (cases data) (simp_all add: readable_def)
  have room: "nat (sint n) < size_t_of (n + 1)"
    by (rule size_t_of_succ [OF n])
  from fits have full: "length (take (nat (sint n)) (drop j (mem w ! d))) = nat (sint n)"
    by simp
  from n room fits d full show ?thesis
    by (simp add: fs_string_from_literal_def fs_string_alloc_returns data size_t_of_nonneg
        memcpy_last store_byte_last bytes_at_def)
qed

text \<open>
  Claim C4. For every byte sequence of non-negative length \<open>n\<close> at \<open>data\<close>,
  construction from the literal, when it returns a non-null handle, returns length
  \<open>n\<close> and capacity \<open>n\<close>; the content is the byte sequence and the byte at offset
  \<open>n\<close> is zero.
\<close>

theorem fs_string_from_literal_success:
  assumes "0 \<le> sint n" and "readable (mem w) data (nat (sint n))"
    and "fs_string_from_literal ok data n w = Inr (s, w')" and "ptr s \<noteq> Null"
  shows "len s = n \<and> cap s = n \<and>
    content (mem w') s = bytes_at (mem w) data (nat (sint n)) \<and>
    byte_at (mem w') (ptr s) (nat (sint n)) = Some (CHR 0x00)"
proof (cases ok)
  case False
  with assms(3,4) show ?thesis
    by (auto simp add: fs_string_from_literal_def fs_string_alloc_False)
next
  case True
  let ?k = "nat (sint n)"
  let ?X = "bytes_at (mem w) data ?k"
  let ?B = "(?X @ drop ?k (fresh_block (size_t_of (n + 1))))[?k := Some (CHR 0x00)]"
  from assms(2) have full: "length ?X = ?k"
    by (rule length_bytes_at)
  have room: "?k < size_t_of (n + 1)"
    by (rule size_t_of_succ [OF assms(1)])
  from assms(3) True
  have s: "s = \<lparr>ptr = Ptr (length (mem w)) 0, len = n, cap = n\<rparr>"
    and w': "w' = w\<lparr>mem := mem w @ [?B]\<rparr>"
    by (simp_all add: fs_string_from_literal_returns [OF assms(1,2)])
  from full room have "take ?k ?B = ?X" and "?k < length ?B" and "?B ! ?k = Some (CHR 0x00)"
    by (simp_all add: nth_append)
  with s w' show ?thesis
    by (simp add: content_def length_of_def bytes_at_last byte_at_last)
qed

theorem fs_string_from_literal_success_witness:
  "fs_string_from_literal True (Ptr 3 0) 2 demo =
     Inr (\<lparr>ptr = Ptr 4 0, len = 2, cap = 2\<rparr>,
          demo\<lparr>mem := mem demo @ [[Some CHR ''h'', Some CHR ''i'', Some CHR 0x00]]\<rparr>) \<and>
   content (mem demo @ [[Some CHR ''h'', Some CHR ''i'', Some CHR 0x00]])
     \<lparr>ptr = Ptr 4 0, len = 2, cap = 2\<rparr> = [Some CHR ''h'', Some CHR ''i''] \<and>
   byte_at (mem demo @ [[Some CHR ''h'', Some CHR ''i'', Some CHR 0x00]]) (Ptr 4 0) 2 =
     Some (CHR 0x00)"
proof -
  have n: "0 \<le> sint (2 :: int32)"
    by simp
  have r: "readable (mem demo) (Ptr 3 0) (nat (sint (2 :: int32)))"
    by (simp add: demo_def readable_def)
  have run: "fs_string_from_literal True (Ptr 3 0) 2 demo =
      Inr (\<lparr>ptr = Ptr 4 0, len = 2, cap = 2\<rparr>,
           demo\<lparr>mem := mem demo @ [[Some CHR ''h'', Some CHR ''i'', Some CHR 0x00]]\<rparr>)"
    by (simp add: demo_def fs_string_from_literal_def fs_string_alloc_def malloc_def
        size_t_of_def store_byte_def memcpy_def numeral_eq_Suc)
  have nn: "ptr \<lparr>ptr = Ptr 4 0, len = 2, cap = 2\<rparr> \<noteq> Null"
    by simp
  have lit: "bytes_at (mem demo) (Ptr 3 0) (nat (sint (2 :: int32))) = [Some CHR ''h'', Some CHR ''i'']"
    by (simp add: demo_def bytes_at_def numeral_eq_Suc)
  from fs_string_from_literal_success [OF n r run nn] run lit show ?thesis
    by simp
qed

section \<open>Concatenation, step by step\<close>

lemma copy_first_last:
  assumes "0 \<le> sint (len x)"
    and "ptr x \<noteq> Null \<longrightarrow> readable M (ptr x) (length_of x)"
    and "copy_first \<lparr>ptr = Ptr (length M) 0, len = l, cap = c\<rparr> x (M @ [B]) = Inr m2"
  shows "\<exists>B1. m2 = M @ [B1] \<and> length B1 = length B \<and>
    take (length_of x) B1 = (if ptr x = Null then take (length_of x) B else content M x) \<and>
    drop (length_of x) B1 = drop (length_of x) B"
proof (cases "ptr x")
  case Null
  with assms(3) show ?thesis
    by (auto simp add: copy_first_def)
next
  case (Ptr b j)
  with assms(2) have b: "b < length M" and fits: "j + length_of x \<le> length (M ! b)"
    by (simp_all add: readable_def)
  from assms(1) have sz: "size_t_of (len x) = length_of x"
    by (simp add: size_t_of_nonneg length_of_def)
  from assms(3) Ptr b fits sz
  have room: "length_of x \<le> length B"
    and m2: "m2 = M @ [take (length_of x) (drop j (M ! b)) @ drop (length_of x) B]"
    by (simp_all add: copy_first_def memcpy_last split: if_splits)
  from fits have "length (take (length_of x) (drop j (M ! b))) = length_of x"
    by simp
  with Ptr room m2 show ?thesis
    by (simp add: content_def bytes_at_def)
qed

lemma copy_second_last:
  assumes "0 \<le> sint (len x)" and "0 \<le> sint (len y)"
    and "ptr y \<noteq> Null \<longrightarrow> readable M (ptr y) (length_of y)"
    and "copy_second \<lparr>ptr = Ptr (length M) 0, len = l, cap = c\<rparr> x y (M @ [B]) = Inr m3"
  shows "\<exists>B2. m3 = M @ [B2] \<and> length B2 = length B \<and>
    take (length_of x) B2 = take (length_of x) B \<and>
    take (length_of y) (drop (length_of x) B2) =
      (if ptr y = Null then take (length_of y) (drop (length_of x) B) else content M y)"
proof (cases "ptr y")
  case Null
  with assms(4) show ?thesis
    by (auto simp add: copy_second_def)
next
  case (Ptr b j)
  with assms(3) have b: "b < length M" and fits: "j + length_of y \<le> length (M ! b)"
    by (simp_all add: readable_def)
  from assms(2) have sz: "size_t_of (len y) = length_of y"
    by (simp add: size_t_of_nonneg length_of_def)
  from assms(1) have off: "nat (sint (len x)) = length_of x"
    by (simp add: length_of_def)
  from assms(4) Ptr assms(1) off
  have cp: "memcpy (Ptr (length M) (length_of x)) (Ptr b j) (length_of y) (M @ [B]) = Inr m3"
    by (simp add: copy_second_def ptr_add_last sz split: if_splits)
  with b fits
  have room: "length_of x + length_of y \<le> length B"
    and m3: "m3 = M @ [take (length_of x) B @ take (length_of y) (drop j (M ! b)) @
               drop (length_of x + length_of y) B]"
    by (simp_all add: memcpy_last split: if_splits)
  from fits have "length (take (length_of y) (drop j (M ! b))) = length_of y"
    by simp
  with Ptr room m3 show ?thesis
    by (simp add: content_def bytes_at_def)
qed


lemma fs_string_concat_run:
  assumes "deref w r1 = Inr x" and "deref w r2 = Inr y"
    and "fs_string_concat ok r1 r2 w = Inr (s, w')" and "ptr s \<noteq> Null"
  shows "\<exists>m2 m3 m4.
    copy_first \<lparr>ptr = Ptr (length (mem w)) 0, len = 0, cap = len x + len y\<rparr> x
      (mem w @ [fresh_block (size_t_of (len x + len y + 1))]) = Inr m2 \<and>
    copy_second \<lparr>ptr = Ptr (length (mem w)) 0, len = 0, cap = len x + len y\<rparr> x y m2 = Inr m3 \<and>
    store_byte (Ptr (length (mem w)) 0) (sint (len x + len y)) (CHR 0x00) m3 = Inr m4 \<and>
    s = \<lparr>ptr = Ptr (length (mem w)) 0, len = len x + len y, cap = len x + len y\<rparr> \<and>
    w' = w\<lparr>mem := m4\<rparr>"
proof (cases ok)
  case False
  with assms show ?thesis
    by (auto simp add: fs_string_concat_def fs_string_alloc_False)
next
  case True
  with assms show ?thesis
    by (simp add: fs_string_concat_def fs_string_alloc_True Let_def fault_case_Inr_iff
        split: if_splits) blast
qed

text \<open>What a run of concatenate that returns a buffer has built, for inputs that are null or readable.\<close>

lemma fs_string_concat_built:
  assumes x: "deref w r1 = Inr x" and y: "deref w r2 = Inr y"
    and nx: "0 \<le> sint (len x)" and ny: "0 \<le> sint (len y)"
    and rx: "ptr x \<noteq> Null \<longrightarrow> readable (mem w) (ptr x) (length_of x)"
    and ry: "ptr y \<noteq> Null \<longrightarrow> readable (mem w) (ptr y) (length_of y)"
    and run: "fs_string_concat ok r1 r2 w = Inr (s, w')" and nn: "ptr s \<noteq> Null"
  shows "\<exists>B.
    s = \<lparr>ptr = Ptr (length (mem w)) 0, len = len x + len y, cap = len x + len y\<rparr> \<and>
    w' = w\<lparr>mem := mem w @ [B]\<rparr> \<and>
    sint (len x + len y) = sint (len x) + sint (len y) \<and>
    length_of x + length_of y < length B \<and>
    take (length_of x) B =
      (if ptr x = Null then take (length_of x) (fresh_block (size_t_of (len x + len y + 1)))
       else content (mem w) x) \<and>
    take (length_of y) (drop (length_of x) B) =
      (if ptr y = Null
       then take (length_of y) (drop (length_of x) (fresh_block (size_t_of (len x + len y + 1))))
       else content (mem w) y) \<and>
    B ! (length_of x + length_of y) = Some (CHR 0x00)"
proof -
  let ?B0 = "fresh_block (size_t_of (len x + len y + 1))"
  from fs_string_concat_run [OF x y run nn] obtain m2 m3 m4 where
    c1: "copy_first \<lparr>ptr = Ptr (length (mem w)) 0, len = 0, cap = len x + len y\<rparr> x
           (mem w @ [?B0]) = Inr m2"
    and c2: "copy_second \<lparr>ptr = Ptr (length (mem w)) 0, len = 0, cap = len x + len y\<rparr> x y m2
           = Inr m3"
    and st: "store_byte (Ptr (length (mem w)) 0) (sint (len x + len y)) (CHR 0x00) m3 = Inr m4"
    and s: "s = \<lparr>ptr = Ptr (length (mem w)) 0, len = len x + len y, cap = len x + len y\<rparr>"
    and w': "w' = w\<lparr>mem := m4\<rparr>"
    by blast
  from copy_first_last [OF nx rx c1] obtain B1 where
    m2: "m2 = mem w @ [B1]" and l1: "length B1 = length ?B0"
    and t1: "take (length_of x) B1 =
      (if ptr x = Null then take (length_of x) ?B0 else content (mem w) x)"
    and d1: "drop (length_of x) B1 = drop (length_of x) ?B0"
    by blast
  from copy_second_last [OF nx ny ry c2 [unfolded m2]] obtain B2 where
    m3: "m3 = mem w @ [B2]" and l2: "length B2 = length B1"
    and t2: "take (length_of x) B2 = take (length_of x) B1"
    and d2: "take (length_of y) (drop (length_of x) B2) =
      (if ptr y = Null then take (length_of y) (drop (length_of x) B1) else content (mem w) y)"
    by blast
  from st m3 have pos: "0 \<le> sint (len x + len y)"
    and room: "sint (len x + len y) < int (length B2)"
    and m4: "m4 = mem w @ [B2[nat (sint (len x + len y)) := Some (CHR 0x00)]]"
    by (simp_all add: store_byte_last split: if_splits)
  from sint_add_nonneg [OF nx ny pos]
  have sum: "sint (len x + len y) = sint (len x) + sint (len y)" .
  with nx ny have k: "nat (sint (len x + len y)) = length_of x + length_of y"
    by (simp add: length_of_def nat_add_distrib)
  from room pos k have lt: "length_of x + length_of y < length B2"
    by linarith
  let ?B = "B2[length_of x + length_of y := Some (CHR 0x00)]"
  have "take (length_of x) ?B = take (length_of x) B2"
    by simp
  moreover have "take (length_of y) (drop (length_of x) ?B) = take (length_of y) (drop (length_of x) B2)"
    by (simp add: drop_update_swap)
  moreover have "?B ! (length_of x + length_of y) = Some (CHR 0x00)"
    using lt by simp
  ultimately show ?thesis
    using s w' m4 k sum lt t1 t2 d1 d2 by (intro exI [of _ ?B]) simp
qed

section \<open>Concatenation as a whole\<close>

lemma constructed_append:
  assumes "constructed M s"
  shows "constructed (M @ Bs) s" and "content (M @ Bs) s = content M s"
  using assms
  by (cases "ptr s"; simp add: constructed_def readable_def content_def bytes_at_def nth_append)+

lemma fs_string_concat_deref:
  assumes "fs_string_concat ok r1 r2 w = Inr p"
  shows "\<exists>x y. deref w r1 = Inr x \<and> deref w r2 = Inr y"
  using assms by (simp add: fs_string_concat_def fault_case_Inr_iff) blast

lemma fs_string_concat_False:
  assumes "fs_string_concat False r1 r2 w = Inr (s, w')"
  shows "ptr s = Null \<and> w' = w"
  using assms by (auto simp add: fs_string_concat_def fault_case_Inr_iff fs_string_alloc_False)

lemma fs_string_concat_True:
  assumes "fs_string_concat True r1 r2 w = Inr (s, w')"
  shows "ptr s \<noteq> Null"
  using assms
  by (auto simp add: fs_string_concat_def fault_case_Inr_iff fs_string_alloc_True Let_def
      split: if_splits)

lemma copy_first_frame:
  assumes "copy_first \<lparr>ptr = Ptr (length M) 0, len = l, cap = c\<rparr> x (M @ [B]) = Inr m2"
  shows "\<exists>B'. m2 = M @ [B'] \<and> length B' = length B"
  using assms by (auto simp add: copy_first_def split: if_splits dest: memcpy_last_frame)

lemma copy_second_frame:
  assumes "copy_second \<lparr>ptr = Ptr (length M) 0, len = l, cap = c\<rparr> x y (M @ [B]) = Inr m3"
  shows "\<exists>B'. m3 = M @ [B'] \<and> length B' = length B"
  using assms
  by (auto simp add: copy_second_def ptr_add_last fault_case_Inr_iff split: if_splits
      dest: memcpy_last_frame)

text \<open>A run of concatenate that returns a buffer has added one block and changed nothing else.\<close>

lemma fs_string_concat_adds_block:
  assumes run: "fs_string_concat ok r1 r2 w = Inr (s, w')" and nn: "ptr s \<noteq> Null"
  shows "\<exists>B. w' = w\<lparr>mem := mem w @ [B]\<rparr> \<and> ptr s = Ptr (length (mem w)) 0 \<and> cap s = len s"
proof -
  from fs_string_concat_deref [OF run] obtain x y
    where x: "deref w r1 = Inr x" and y: "deref w r2 = Inr y"
    by blast
  let ?S = "\<lparr>ptr = Ptr (length (mem w)) 0, len = 0, cap = len x + len y\<rparr>"
  from fs_string_concat_run [OF x y run nn] obtain m2 m3 m4 where
    c1: "copy_first ?S x (mem w @ [fresh_block (size_t_of (len x + len y + 1))]) = Inr m2"
    and c2: "copy_second ?S x y m2 = Inr m3"
    and st: "store_byte (Ptr (length (mem w)) 0) (sint (len x + len y)) (CHR 0x00) m3 = Inr m4"
    and s: "s = \<lparr>ptr = Ptr (length (mem w)) 0, len = len x + len y, cap = len x + len y\<rparr>"
    and w': "w' = w\<lparr>mem := m4\<rparr>"
    by blast
  from copy_first_frame [OF c1] obtain B1 where m2: "m2 = mem w @ [B1]"
    by blast
  from copy_second_frame [OF c2 [unfolded m2]] obtain B2 where m3: "m3 = mem w @ [B2]"
    by blast
  from st m3 have "m4 = mem w @ [B2[nat (sint (len x + len y)) := Some (CHR 0x00)]]"
    by (simp add: store_byte_last split: if_splits)
  with s w' show ?thesis
    by auto
qed

text \<open>The same run on successfully constructed inputs.\<close>

lemma fs_string_concat_constructed_built:
  assumes x: "deref w r1 = Inr x" and y: "deref w r2 = Inr y"
    and cx: "constructed (mem w) x" and cy: "constructed (mem w) y"
    and run: "fs_string_concat ok r1 r2 w = Inr (s, w')" and nn: "ptr s \<noteq> Null"
  shows "objs w' = objs w \<and> out w' = out w \<and> (\<exists>B. mem w' = mem w @ [B]) \<and>
    constructed (mem w') s \<and>
    sint (len s) = sint (len x) + sint (len y) \<and>
    content (mem w') s = content (mem w) x @ content (mem w) y \<and>
    byte_at (mem w') (ptr s) (length_of x + length_of y) = Some (CHR 0x00)"
proof -
  from cx have nx: "0 \<le> sint (len x)" and px: "ptr x \<noteq> Null"
    and rx: "ptr x \<noteq> Null \<longrightarrow> readable (mem w) (ptr x) (length_of x)"
    by (auto simp add: constructed_def readable_def)
  from cy have ny: "0 \<le> sint (len y)" and py: "ptr y \<noteq> Null"
    and ry: "ptr y \<noteq> Null \<longrightarrow> readable (mem w) (ptr y) (length_of y)"
    by (auto simp add: constructed_def readable_def)
  from fs_string_concat_built [OF x y nx ny rx ry run nn] px py obtain B where
    s: "s = \<lparr>ptr = Ptr (length (mem w)) 0, len = len x + len y, cap = len x + len y\<rparr>"
    and w': "w' = w\<lparr>mem := mem w @ [B]\<rparr>"
    and sum: "sint (len x + len y) = sint (len x) + sint (len y)"
    and lt: "length_of x + length_of y < length B"
    and tx: "take (length_of x) B = content (mem w) x"
    and ty: "take (length_of y) (drop (length_of x) B) = content (mem w) y"
    and z: "B ! (length_of x + length_of y) = Some (CHR 0x00)"
    by auto
  from sum nx ny have k: "length_of s = length_of x + length_of y"
    by (simp add: s length_of_def nat_add_distrib)
  have "take (length_of x + length_of y) B = content (mem w) x @ content (mem w) y"
    by (simp add: take_add tx ty)
  with s w' sum lt z k nx ny show ?thesis
    by (simp add: content_def bytes_at_last byte_at_last constructed_def readable_def)
qed

text \<open>
  With memory available, concatenating two successfully constructed values whose
  lengths add up to an \<^verbatim>\<open>int\<close> returns a buffer.
\<close>

lemma fs_string_concat_returns:
  assumes x: "deref w r1 = Inr x" and y: "deref w r2 = Inr y"
    and cx: "constructed (mem w) x" and cy: "constructed (mem w) y"
    and fit: "sint (len x) + sint (len y) < 2147483648"
  shows "\<exists>s w'. fs_string_concat True r1 r2 w = Inr (s, w') \<and> ptr s \<noteq> Null"
proof -
  from cx obtain b1 j1 where px: "ptr x = Ptr b1 j1" and b1: "b1 < length (mem w)"
    and nx: "0 \<le> sint (len x)" and f1: "j1 + length_of x \<le> length (mem w ! b1)"
    by (cases "ptr x") (simp_all add: constructed_def readable_def)
  from cy obtain b2 j2 where py: "ptr y = Ptr b2 j2" and b2: "b2 < length (mem w)"
    and ny: "0 \<le> sint (len y)" and f2: "j2 + length_of y \<le> length (mem w ! b2)"
    by (cases "ptr y") (simp_all add: constructed_def readable_def)
  from nx ny fit have sum: "sint (len x + len y) = sint (len x) + sint (len y)"
    by (simp add: sint_word_ariths wrap_none)
  with nx ny have pos: "0 \<le> sint (len x + len y)"
    by simp
  from sum nx ny have k: "nat (sint (len x + len y)) = length_of x + length_of y"
    by (simp add: length_of_def nat_add_distrib)
  from size_t_of_succ [OF pos] k
  have room: "length_of x + length_of y < size_t_of (len x + len y + 1)"
    by simp
  from nx ny have sx: "size_t_of (len x) = length_of x" and sy: "size_t_of (len y) = length_of y"
    and ix: "sint (len x) = int (length_of x)" and iy: "sint (len y) = int (length_of y)"
    by (simp_all add: size_t_of_nonneg length_of_def)
  from room have iroom: "int (length_of x) + int (length_of y) < int (size_t_of (len x + len y + 1))"
    by linarith
  have len1: "length (take (length_of x) (drop j1 (mem w ! b1))) = length_of x"
    using f1 by simp
  from room have r1: "length_of x \<le> size_t_of (len x + len y + 1)"
    and r2: "length_of x + length_of y \<le> size_t_of (len x + len y + 1)"
    by simp_all
  show ?thesis
    using x y px py b1 b2 f1 f2 r1 r2 len1 iroom
    by (simp add: fs_string_concat_def fs_string_alloc_returns [OF pos] copy_first_def
        copy_second_def sx sy memcpy_last ptr_add_last ix iy store_byte_last sum Let_def)
qed

section \<open>Runs in the small world\<close>

lemma demo_foo_bar:
  "fs_string_concat True 0 1 demo =
     Inr (\<lparr>ptr = Ptr 4 0, len = 6, cap = 6\<rparr>,
          demo\<lparr>mem := mem demo @
            [[Some CHR ''f'', Some CHR ''o'', Some CHR ''o'', Some CHR ''b'', Some CHR ''a'',
              Some CHR ''r'', Some CHR 0x00]]\<rparr>)"
  by (simp add: demo_def fs_string_concat_def fs_string_alloc_def deref_def malloc_def
      size_t_of_def store_byte_def copy_first_def copy_second_def ptr_add_def memcpy_def
      numeral_eq_Suc)

lemma demo_foo_bar_failed:
  "fs_string_concat False 0 1 demo = Inr (\<lparr>ptr = Null, len = 0, cap = 6\<rparr>, demo)"
  by (simp add: demo_def fs_string_concat_def fs_string_alloc_def deref_def malloc_def)



lemma demo_hi:
  "fs_string_from_literal True (Ptr 3 0) 2 demo =
     Inr (\<lparr>ptr = Ptr 4 0, len = 2, cap = 2\<rparr>,
          demo\<lparr>mem := mem demo @ [[Some CHR ''h'', Some CHR ''i'', Some CHR 0x00]]\<rparr>)"
  by (simp add: demo_def fs_string_from_literal_def fs_string_alloc_def malloc_def
      size_t_of_def store_byte_def memcpy_def numeral_eq_Suc)

lemma demo_deref:
  "deref demo 0 = Inr \<lparr>ptr = Ptr 0 0, len = 3, cap = 3\<rparr>"
  "deref demo 1 = Inr \<lparr>ptr = Ptr 1 0, len = 3, cap = 3\<rparr>"
  "deref demo 2 = Inr \<lparr>ptr = Null, len = 0, cap = 7\<rparr>"
  "deref demo 3 = Inr \<lparr>ptr = Null, len = 2, cap = 0\<rparr>"
  "deref demo 4 = Inr \<lparr>ptr = Ptr 2 0, len = 3, cap = 3\<rparr>"
  by (simp_all add: demo_def deref_def)

lemma demo_constructed:
  "constructed (mem demo) \<lparr>ptr = Ptr 0 0, len = 3, cap = 3\<rparr>"
  "constructed (mem demo) \<lparr>ptr = Ptr 1 0, len = 3, cap = 3\<rparr>"
  "constructed (mem demo) \<lparr>ptr = Ptr 2 0, len = 3, cap = 3\<rparr>"
  by (simp_all add: demo_def constructed_def readable_def length_of_def)

lemma demo_content:
  "content (mem demo) \<lparr>ptr = Ptr 0 0, len = 3, cap = 3\<rparr> = map Some ''foo''"
  "content (mem demo) \<lparr>ptr = Ptr 1 0, len = 3, cap = 3\<rparr> = map Some ''bar''"
  "content (mem demo) \<lparr>ptr = Ptr 2 0, len = 3, cap = 3\<rparr> = map Some [CHR ''a'', CHR 0x00, CHR ''b'']"
  by (simp_all add: demo_def content_def bytes_at_def length_of_def)

section \<open>The claims about concatenation\<close>

text \<open>
  Claim C3. For successfully constructed \<open>x\<close> and \<open>y\<close>, a concatenation that returns a
  non-null handle returns the length \<open>x.length + y.length\<close>; its content is the bytes of
  \<open>x\<close> followed by the bytes of \<open>y\<close>, and the byte at offset \<open>x.length + y.length\<close> is zero.
\<close>

theorem fs_string_concat_constructed:
  assumes "deref w r1 = Inr x" and "deref w r2 = Inr y"
    and "constructed (mem w) x" and "constructed (mem w) y"
    and "fs_string_concat ok r1 r2 w = Inr (s, w')" and "ptr s \<noteq> Null"
  shows "sint (len s) = sint (len x) + sint (len y) \<and>
    content (mem w') s = content (mem w) x @ content (mem w) y \<and>
    byte_at (mem w') (ptr s) (length_of x + length_of y) = Some (CHR 0x00)"
  using fs_string_concat_constructed_built [OF assms] by simp

theorem fs_string_concat_constructed_witness:
  "fs_string_concat True 0 1 demo =
     Inr (\<lparr>ptr = Ptr 4 0, len = 6, cap = 6\<rparr>,
          demo\<lparr>mem := mem demo @
            [[Some CHR ''f'', Some CHR ''o'', Some CHR ''o'', Some CHR ''b'', Some CHR ''a'',
              Some CHR ''r'', Some CHR 0x00]]\<rparr>) \<and>
   content (mem demo @
            [[Some CHR ''f'', Some CHR ''o'', Some CHR ''o'', Some CHR ''b'', Some CHR ''a'',
              Some CHR ''r'', Some CHR 0x00]]) \<lparr>ptr = Ptr 4 0, len = 6, cap = 6\<rparr> =
     map Some ''foobar''"
proof -
  have nn: "ptr \<lparr>ptr = Ptr 4 0, len = 6, cap = 6\<rparr> \<noteq> Null"
    by simp
  note built = fs_string_concat_constructed
    [OF demo_deref(1) demo_deref(2) demo_constructed(1) demo_constructed(2) demo_foo_bar nn]
  have "content (mem (demo\<lparr>mem := mem demo @
            [[Some CHR ''f'', Some CHR ''o'', Some CHR ''o'', Some CHR ''b'', Some CHR ''a'',
              Some CHR ''r'', Some CHR 0x00]]\<rparr>)) \<lparr>ptr = Ptr 4 0, len = 6, cap = 6\<rparr> =
     map Some ''foobar''"
    unfolding built [THEN conjunct2, THEN conjunct1] demo_content by simp
  with demo_foo_bar show ?thesis
    by simp
qed






text \<open>
  Claim C8. A concatenation that returns, with or without a buffer, leaves every
  String Value object as it was, both inputs among them, and every buffer that
  existed still exists with the bytes it had; nothing is written to the output.
\<close>

theorem fs_string_concat_frame:
  assumes "fs_string_concat ok r1 r2 w = Inr (s, w')"
  shows "deref w' r1 = deref w r1 \<and> deref w' r2 = deref w r2 \<and> objs w' = objs w \<and>
    length (mem w) \<le> length (mem w') \<and> take (length (mem w)) (mem w') = mem w \<and>
    out w' = out w"
proof (cases "ptr s = Null")
  case True
  with assms fs_string_concat_True [of r1 r2 w s w'] have "\<not> ok"
    by auto
  with assms fs_string_concat_False [of r1 r2 w s w'] show ?thesis
    by simp
next
  case False
  from fs_string_concat_adds_block [OF assms False] show ?thesis
    by (auto simp add: deref_def)
qed

theorem fs_string_concat_frame_witness:
  "fs_string_concat True 0 1 demo =
     Inr (\<lparr>ptr = Ptr 4 0, len = 6, cap = 6\<rparr>,
          demo\<lparr>mem := mem demo @
            [[Some CHR ''f'', Some CHR ''o'', Some CHR ''o'', Some CHR ''b'', Some CHR ''a'',
              Some CHR ''r'', Some CHR 0x00]]\<rparr>) \<and>
   take (length (mem demo)) (mem demo @
            [[Some CHR ''f'', Some CHR ''o'', Some CHR ''o'', Some CHR ''b'', Some CHR ''a'',
              Some CHR ''r'', Some CHR 0x00]]) = mem demo \<and>
   fs_string_concat False 0 1 demo = Inr (\<lparr>ptr = Null, len = 0, cap = 6\<rparr>, demo)"
  using fs_string_concat_frame [OF demo_foo_bar] fs_string_concat_frame [OF demo_foo_bar_failed]
    demo_foo_bar demo_foo_bar_failed
  by simp

text \<open>
  Claim C9. A value with a non-null handle that allocate, construction from a literal
  or concatenate returns, for a non-negative size or length argument, has its length
  at most its capacity.
\<close>

theorem length_le_capacity:
  assumes "0 \<le> sint n"
    and "fs_string_alloc ok n w = Inr (s, w') \<or>
         fs_string_from_literal ok data n w = Inr (s, w') \<or>
         fs_string_concat ok r1 r2 w = Inr (s, w')"
    and "ptr s \<noteq> Null"
  shows "sint (len s) \<le> sint (cap s)"
proof -
  from assms(2) consider
    (alloc) "fs_string_alloc ok n w = Inr (s, w')"
    | (literal) "fs_string_from_literal ok data n w = Inr (s, w')"
    | (concat) "fs_string_concat ok r1 r2 w = Inr (s, w')"
    by blast
  then show ?thesis
  proof cases
    case alloc
    with assms(1,3) show ?thesis
      by (cases ok)
        (auto simp add: fs_string_alloc_True fs_string_alloc_False split: if_splits)
  next
    case literal
    with assms(3) show ?thesis
      by (cases ok)
        (auto simp add: fs_string_from_literal_def fs_string_alloc_True fs_string_alloc_False
          fault_case_Inr_iff split: if_splits)
  next
    case concat
    from fs_string_concat_adds_block [OF concat assms(3)] show ?thesis
      by auto
  qed
qed


theorem length_le_capacity_witness:
  "0 \<le> sint (2 :: int32) \<and>
   fs_string_from_literal True (Ptr 3 0) 2 demo =
     Inr (\<lparr>ptr = Ptr 4 0, len = 2, cap = 2\<rparr>,
          demo\<lparr>mem := mem demo @ [[Some CHR ''h'', Some CHR ''i'', Some CHR 0x00]]\<rparr>) \<and>
   sint (len \<lparr>ptr = Ptr 4 0, len = 2 :: int32, cap = 2 :: int32\<rparr>) \<le>
     sint (cap \<lparr>ptr = Ptr 4 0, len = 2 :: int32, cap = 2 :: int32\<rparr>)"
proof -
  have n: "0 \<le> sint (2 :: int32)"
    by simp
  have nn: "ptr \<lparr>ptr = Ptr 4 0, len = 2, cap = 2\<rparr> \<noteq> Null"
    by simp
  have run: "fs_string_alloc True 2 demo = Inr (\<lparr>ptr = Ptr 4 0, len = 2, cap = 2\<rparr>,
          demo\<lparr>mem := mem demo @ [[Some CHR ''h'', Some CHR ''i'', Some CHR 0x00]]\<rparr>) \<or>
      fs_string_from_literal True (Ptr 3 0) 2 demo =
        Inr (\<lparr>ptr = Ptr 4 0, len = 2, cap = 2\<rparr>,
          demo\<lparr>mem := mem demo @ [[Some CHR ''h'', Some CHR ''i'', Some CHR 0x00]]\<rparr>) \<or>
      fs_string_concat True 0 0 demo = Inr (\<lparr>ptr = Ptr 4 0, len = 2, cap = 2\<rparr>,
          demo\<lparr>mem := mem demo @ [[Some CHR ''h'', Some CHR ''i'', Some CHR 0x00]]\<rparr>)"
    using demo_hi by simp
  from length_le_capacity [OF n run nn] n demo_hi show ?thesis
    by simp
qed

lemma keep_simps [simp]:
  "mem (keep s w) = mem w" "out (keep s w) = out w" "objs (keep s w) = objs w @ [s]"
  by (simp_all add: keep_def)

lemma deref_keep_new: "deref (keep s w) (length (objs w)) = Inr s"
  by (simp add: deref_def)

lemma deref_keep_old:
  "deref w r = Inr z \<Longrightarrow> objs w1 = objs w \<Longrightarrow> deref (keep s w1) r = Inr z"
  by (auto simp add: deref_def nth_append split: if_splits)

text \<open>
  With memory available, both groupings of three successfully constructed values whose
  lengths add up to an \<^verbatim>\<open>int\<close> return a buffer at every step.
\<close>

lemma fs_string_concat_chain_returns:
  assumes x: "deref w r1 = Inr x" and y: "deref w r2 = Inr y" and z: "deref w r3 = Inr z"
    and cx: "constructed (mem w) x" and cy: "constructed (mem w) y"
    and cz: "constructed (mem w) z"
    and fit: "sint (len x) + sint (len y) + sint (len z) < 2147483648"
  shows "\<exists>xy w1 l w2 yz v1 r v2.
    fs_string_concat True r1 r2 w = Inr (xy, w1) \<and> ptr xy \<noteq> Null \<and>
    fs_string_concat True (length (objs w1)) r3 (keep xy w1) = Inr (l, w2) \<and> ptr l \<noteq> Null \<and>
    fs_string_concat True r2 r3 w = Inr (yz, v1) \<and> ptr yz \<noteq> Null \<and>
    fs_string_concat True r1 (length (objs v1)) (keep yz v1) = Inr (r, v2) \<and> ptr r \<noteq> Null"
proof -
  from cx cy cz have nx: "0 \<le> sint (len x)" and ny: "0 \<le> sint (len y)"
    and nz: "0 \<le> sint (len z)"
    by (simp_all add: constructed_def)
  from fit nz have fxy: "sint (len x) + sint (len y) < 2147483648"
    by linarith
  from fs_string_concat_returns [OF x y cx cy fxy] obtain xy w1 where
    r1: "fs_string_concat True r1 r2 w = Inr (xy, w1)" and n1: "ptr xy \<noteq> Null"
    by blast
  from fs_string_concat_constructed_built [OF x y cx cy r1 n1] obtain B where
    o1: "objs w1 = objs w" and m1: "mem w1 = mem w @ [B]"
    and c1: "constructed (mem w1) xy"
    and l1: "sint (len xy) = sint (len x) + sint (len y)"
    by blast
  from z o1 have z1: "deref (keep xy w1) r3 = Inr z"
    by (rule deref_keep_old)
  from constructed_append(1) [OF cz, of "[B]"] m1 have cz1: "constructed (mem (keep xy w1)) z"
    by simp
  from c1 have c1': "constructed (mem (keep xy w1)) xy"
    by simp
  from l1 fit have f2: "sint (len xy) + sint (len z) < 2147483648"
    by linarith
  from fs_string_concat_returns [OF deref_keep_new z1 c1' cz1 f2] obtain l w2 where
    r2: "fs_string_concat True (length (objs w1)) r3 (keep xy w1) = Inr (l, w2)"
    and n2: "ptr l \<noteq> Null"
    by blast
  from fit nx have fyz: "sint (len y) + sint (len z) < 2147483648"
    by linarith
  from fs_string_concat_returns [OF y z cy cz fyz] obtain yz v1 where
    r3: "fs_string_concat True r2 r3 w = Inr (yz, v1)" and n3: "ptr yz \<noteq> Null"
    by blast
  from fs_string_concat_constructed_built [OF y z cy cz r3 n3] obtain C where
    o2: "objs v1 = objs w" and m2: "mem v1 = mem w @ [C]"
    and c2: "constructed (mem v1) yz"
    and l2: "sint (len yz) = sint (len y) + sint (len z)"
    by blast
  from x o2 have x2: "deref (keep yz v1) r1 = Inr x"
    by (rule deref_keep_old)
  from constructed_append(1) [OF cx, of "[C]"] m2 have cx2: "constructed (mem (keep yz v1)) x"
    by simp
  from c2 have c2': "constructed (mem (keep yz v1)) yz"
    by simp
  from l2 fit have f4: "sint (len x) + sint (len yz) < 2147483648"
    by linarith
  from fs_string_concat_returns [OF x2 deref_keep_new cx2 c2' f4] obtain r v2 where
    r4: "fs_string_concat True r1 (length (objs v1)) (keep yz v1) = Inr (r, v2)"
    and n4: "ptr r \<noteq> Null"
    by blast
  from r1 n1 r2 n2 r3 n3 r4 n4 show ?thesis
    by blast
qed

text \<open>
  Claim C7. For successfully constructed \<open>x\<close>, \<open>y\<close> and \<open>z\<close>, when all four
  concatenations return a non-null handle, \<open>(x y) z\<close> and \<open>x (y z)\<close> have the same
  content, the bytes of \<open>x\<close>, \<open>y\<close> and \<open>z\<close> in this order. The caller keeps the
  intermediate value to pass its address.
\<close>

theorem fs_string_concat_assoc:
  assumes x: "deref w r1 = Inr x" and y: "deref w r2 = Inr y" and z: "deref w r3 = Inr z"
    and cx: "constructed (mem w) x" and cy: "constructed (mem w) y"
    and cz: "constructed (mem w) z"
    and xy: "fs_string_concat ok1 r1 r2 w = Inr (xy, w1)" and nxy: "ptr xy \<noteq> Null"
    and xy_z: "fs_string_concat ok2 (length (objs w1)) r3 (keep xy w1) = Inr (l, w2)"
    and nl: "ptr l \<noteq> Null"
    and yz: "fs_string_concat ok3 r2 r3 w = Inr (yz, v1)" and nyz: "ptr yz \<noteq> Null"
    and x_yz: "fs_string_concat ok4 r1 (length (objs v1)) (keep yz v1) = Inr (r, v2)"
    and nr: "ptr r \<noteq> Null"
  shows "content (mem w2) l = content (mem v2) r \<and>
    content (mem w2) l = content (mem w) x @ content (mem w) y @ content (mem w) z"
proof -
  from fs_string_concat_constructed_built [OF x y cx cy xy nxy] obtain B where
    o1: "objs w1 = objs w" and m1: "mem w1 = mem w @ [B]"
    and c1: "constructed (mem w1) xy"
    and t1: "content (mem w1) xy = content (mem w) x @ content (mem w) y"
    by blast
  from z o1 have z1: "deref (keep xy w1) r3 = Inr z"
    by (rule deref_keep_old)
  from constructed_append [OF cz, of "[B]"] m1
  have cz1: "constructed (mem (keep xy w1)) z"
    and tz1: "content (mem (keep xy w1)) z = content (mem w) z"
    by simp_all
  from c1 have c1': "constructed (mem (keep xy w1)) xy"
    by simp
  from fs_string_concat_constructed_built [OF deref_keep_new z1 c1' cz1 xy_z nl] t1 tz1
  have left: "content (mem w2) l = (content (mem w) x @ content (mem w) y) @ content (mem w) z"
    by simp
  from fs_string_concat_constructed_built [OF y z cy cz yz nyz] obtain C where
    o2: "objs v1 = objs w" and m2: "mem v1 = mem w @ [C]"
    and c2: "constructed (mem v1) yz"
    and t2: "content (mem v1) yz = content (mem w) y @ content (mem w) z"
    by blast
  from x o2 have x2: "deref (keep yz v1) r1 = Inr x"
    by (rule deref_keep_old)
  from constructed_append [OF cx, of "[C]"] m2
  have cx2: "constructed (mem (keep yz v1)) x"
    and tx2: "content (mem (keep yz v1)) x = content (mem w) x"
    by simp_all
  from c2 have c2': "constructed (mem (keep yz v1)) yz"
    by simp
  from fs_string_concat_constructed_built [OF x2 deref_keep_new cx2 c2' x_yz nr] t2 tx2
  have right: "content (mem v2) r = content (mem w) x @ content (mem w) y @ content (mem w) z"
    by simp
  from left right show ?thesis
    by simp
qed


lemma demo_foobar_a0b:
  "fs_string_concat True
     (length (objs (demo\<lparr>mem := mem demo @
        [[Some CHR ''f'', Some CHR ''o'', Some CHR ''o'', Some CHR ''b'', Some CHR ''a'',
          Some CHR ''r'', Some CHR 0x00]]\<rparr>))) 4
     (keep \<lparr>ptr = Ptr 4 0, len = 6, cap = 6\<rparr>
        (demo\<lparr>mem := mem demo @
          [[Some CHR ''f'', Some CHR ''o'', Some CHR ''o'', Some CHR ''b'', Some CHR ''a'',
            Some CHR ''r'', Some CHR 0x00]]\<rparr>)) =
   Inr (\<lparr>ptr = Ptr 5 0, len = 9, cap = 9\<rparr>,
        \<lparr>objs = objs demo @ [\<lparr>ptr = Ptr 4 0, len = 6, cap = 6\<rparr>],
         mem = mem demo @
          [[Some CHR ''f'', Some CHR ''o'', Some CHR ''o'', Some CHR ''b'', Some CHR ''a'',
            Some CHR ''r'', Some CHR 0x00],
           [Some CHR ''f'', Some CHR ''o'', Some CHR ''o'', Some CHR ''b'', Some CHR ''a'',
            Some CHR ''r'', Some CHR ''a'', Some CHR 0x00, Some CHR ''b'', Some CHR 0x00]],
         out = []\<rparr>)"
  by (simp add: demo_def keep_def fs_string_concat_def fs_string_alloc_def deref_def malloc_def
      size_t_of_def store_byte_def copy_first_def copy_second_def ptr_add_def memcpy_def
      numeral_eq_Suc)

lemma demo_bar_a0b:
  "fs_string_concat True 1 4 demo =
     Inr (\<lparr>ptr = Ptr 4 0, len = 6, cap = 6\<rparr>,
          demo\<lparr>mem := mem demo @
            [[Some CHR ''b'', Some CHR ''a'', Some CHR ''r'', Some CHR ''a'', Some CHR 0x00,
              Some CHR ''b'', Some CHR 0x00]]\<rparr>)"
  by (simp add: demo_def fs_string_concat_def fs_string_alloc_def deref_def malloc_def
      size_t_of_def store_byte_def copy_first_def copy_second_def ptr_add_def memcpy_def
      numeral_eq_Suc)

lemma demo_foo_bara0b:
  "fs_string_concat True 0
     (length (objs (demo\<lparr>mem := mem demo @
        [[Some CHR ''b'', Some CHR ''a'', Some CHR ''r'', Some CHR ''a'', Some CHR 0x00,
          Some CHR ''b'', Some CHR 0x00]]\<rparr>)))
     (keep \<lparr>ptr = Ptr 4 0, len = 6, cap = 6\<rparr>
        (demo\<lparr>mem := mem demo @
          [[Some CHR ''b'', Some CHR ''a'', Some CHR ''r'', Some CHR ''a'', Some CHR 0x00,
            Some CHR ''b'', Some CHR 0x00]]\<rparr>)) =
   Inr (\<lparr>ptr = Ptr 5 0, len = 9, cap = 9\<rparr>,
        \<lparr>objs = objs demo @ [\<lparr>ptr = Ptr 4 0, len = 6, cap = 6\<rparr>],
         mem = mem demo @
          [[Some CHR ''b'', Some CHR ''a'', Some CHR ''r'', Some CHR ''a'', Some CHR 0x00,
            Some CHR ''b'', Some CHR 0x00],
           [Some CHR ''f'', Some CHR ''o'', Some CHR ''o'', Some CHR ''b'', Some CHR ''a'',
            Some CHR ''r'', Some CHR ''a'', Some CHR 0x00, Some CHR ''b'', Some CHR 0x00]],
         out = []\<rparr>)"
  by (simp add: demo_def keep_def fs_string_concat_def fs_string_alloc_def deref_def malloc_def
      size_t_of_def store_byte_def copy_first_def copy_second_def ptr_add_def memcpy_def
      numeral_eq_Suc)

lemma demo_objects: "length (objs (demo\<lparr>mem := m\<rparr>)) = 5"
  by (simp add: demo_def)

theorem fs_string_concat_assoc_witness:
  "fs_string_concat True 0 1 demo =
     Inr (\<lparr>ptr = Ptr 4 0, len = 6, cap = 6\<rparr>,
          demo\<lparr>mem := mem demo @
            [[Some CHR ''f'', Some CHR ''o'', Some CHR ''o'', Some CHR ''b'', Some CHR ''a'',
              Some CHR ''r'', Some CHR 0x00]]\<rparr>) \<and>
   fs_string_concat True 5 4
     (keep \<lparr>ptr = Ptr 4 0, len = 6, cap = 6\<rparr>
        (demo\<lparr>mem := mem demo @
          [[Some CHR ''f'', Some CHR ''o'', Some CHR ''o'', Some CHR ''b'', Some CHR ''a'',
            Some CHR ''r'', Some CHR 0x00]]\<rparr>)) =
     Inr (\<lparr>ptr = Ptr 5 0, len = 9, cap = 9\<rparr>,
        \<lparr>objs = objs demo @ [\<lparr>ptr = Ptr 4 0, len = 6, cap = 6\<rparr>],
         mem = mem demo @
          [[Some CHR ''f'', Some CHR ''o'', Some CHR ''o'', Some CHR ''b'', Some CHR ''a'',
            Some CHR ''r'', Some CHR 0x00],
           [Some CHR ''f'', Some CHR ''o'', Some CHR ''o'', Some CHR ''b'', Some CHR ''a'',
            Some CHR ''r'', Some CHR ''a'', Some CHR 0x00, Some CHR ''b'', Some CHR 0x00]],
         out = []\<rparr>) \<and>
   fs_string_concat True 1 4 demo =
     Inr (\<lparr>ptr = Ptr 4 0, len = 6, cap = 6\<rparr>,
          demo\<lparr>mem := mem demo @
            [[Some CHR ''b'', Some CHR ''a'', Some CHR ''r'', Some CHR ''a'', Some CHR 0x00,
              Some CHR ''b'', Some CHR 0x00]]\<rparr>) \<and>
   fs_string_concat True 0 5
     (keep \<lparr>ptr = Ptr 4 0, len = 6, cap = 6\<rparr>
        (demo\<lparr>mem := mem demo @
          [[Some CHR ''b'', Some CHR ''a'', Some CHR ''r'', Some CHR ''a'', Some CHR 0x00,
            Some CHR ''b'', Some CHR 0x00]]\<rparr>)) =
     Inr (\<lparr>ptr = Ptr 5 0, len = 9, cap = 9\<rparr>,
        \<lparr>objs = objs demo @ [\<lparr>ptr = Ptr 4 0, len = 6, cap = 6\<rparr>],
         mem = mem demo @
          [[Some CHR ''b'', Some CHR ''a'', Some CHR ''r'', Some CHR ''a'', Some CHR 0x00,
            Some CHR ''b'', Some CHR 0x00],
           [Some CHR ''f'', Some CHR ''o'', Some CHR ''o'', Some CHR ''b'', Some CHR ''a'',
            Some CHR ''r'', Some CHR ''a'', Some CHR 0x00, Some CHR ''b'', Some CHR 0x00]],
         out = []\<rparr>) \<and>
   content
     (mem demo @
      [[Some CHR ''f'', Some CHR ''o'', Some CHR ''o'', Some CHR ''b'', Some CHR ''a'',
        Some CHR ''r'', Some CHR 0x00],
       [Some CHR ''f'', Some CHR ''o'', Some CHR ''o'', Some CHR ''b'', Some CHR ''a'',
        Some CHR ''r'', Some CHR ''a'', Some CHR 0x00, Some CHR ''b'', Some CHR 0x00]])
     \<lparr>ptr = Ptr 5 0, len = 9, cap = 9\<rparr> =
   content
     (mem demo @
      [[Some CHR ''b'', Some CHR ''a'', Some CHR ''r'', Some CHR ''a'', Some CHR 0x00,
        Some CHR ''b'', Some CHR 0x00],
       [Some CHR ''f'', Some CHR ''o'', Some CHR ''o'', Some CHR ''b'', Some CHR ''a'',
        Some CHR ''r'', Some CHR ''a'', Some CHR 0x00, Some CHR ''b'', Some CHR 0x00]])
     \<lparr>ptr = Ptr 5 0, len = 9, cap = 9\<rparr> \<and>
   content
     (mem demo @
      [[Some CHR ''f'', Some CHR ''o'', Some CHR ''o'', Some CHR ''b'', Some CHR ''a'',
        Some CHR ''r'', Some CHR 0x00],
       [Some CHR ''f'', Some CHR ''o'', Some CHR ''o'', Some CHR ''b'', Some CHR ''a'',
        Some CHR ''r'', Some CHR ''a'', Some CHR 0x00, Some CHR ''b'', Some CHR 0x00]])
     \<lparr>ptr = Ptr 5 0, len = 9, cap = 9\<rparr> =
   map Some [CHR ''f'', CHR ''o'', CHR ''o'', CHR ''b'', CHR ''a'', CHR ''r'', CHR ''a'',
     CHR 0x00, CHR ''b'']"
proof -
  have nn: "ptr \<lparr>ptr = Ptr 4 0, len = 6, cap = 6\<rparr> \<noteq> Null"
    "ptr \<lparr>ptr = Ptr 5 0, len = 9, cap = 9\<rparr> \<noteq> Null"
    by simp_all
  note both = fs_string_concat_assoc
    [OF demo_deref(1) demo_deref(2) demo_deref(5)
      demo_constructed(1) demo_constructed(2) demo_constructed(3)
      demo_foo_bar nn(1) demo_foobar_a0b nn(2)
      demo_bar_a0b nn(1) demo_foo_bara0b nn(2)]
  have bytes: "content
      (mem \<lparr>objs = objs demo @ [\<lparr>ptr = Ptr 4 0, len = 6, cap = 6\<rparr>],
         mem = mem demo @
          [[Some CHR ''f'', Some CHR ''o'', Some CHR ''o'', Some CHR ''b'', Some CHR ''a'',
            Some CHR ''r'', Some CHR 0x00],
           [Some CHR ''f'', Some CHR ''o'', Some CHR ''o'', Some CHR ''b'', Some CHR ''a'',
            Some CHR ''r'', Some CHR ''a'', Some CHR 0x00, Some CHR ''b'', Some CHR 0x00]],
         out = []\<rparr>)
      \<lparr>ptr = Ptr 5 0, len = 9, cap = 9\<rparr> =
    map Some [CHR ''f'', CHR ''o'', CHR ''o'', CHR ''b'', CHR ''a'', CHR ''r'', CHR ''a'',
      CHR 0x00, CHR ''b'']"
    unfolding both [THEN conjunct2] demo_content by simp
  from both [THEN conjunct1] bytes demo_foo_bar demo_foobar_a0b [unfolded demo_objects]
    demo_bar_a0b demo_foo_bara0b [unfolded demo_objects]
  show ?thesis
    by simp
qed

section \<open>Printing\<close>

text \<open>
  With a precision that covers the initialised bytes \<open>bs\<close>, \<^verbatim>\<open>%.*s\<close> writes them up
  to their first zero byte.
\<close>

lemma print_chars_bytes:
  "print_chars (Some (length bs)) (map Some bs @ rest) = Inr (takeWhile (\<lambda>c. c \<noteq> CHR 0x00) bs)"
  by (induction bs) simp_all

lemma fs_print_string_null:
  assumes "deref w r = Inr s" and "ptr s = Null"
  shows "fs_print_string r w = Inr (w\<lparr>out := out w @ ''(null)'' @ [CHR 0x0A]\<rparr>)"
  using assms by (simp add: fs_print_string_def)

lemma fs_print_string_bytes:
  assumes s: "deref w r = Inr s" and c: "constructed (mem w) s"
    and bs: "content (mem w) s = map Some bs"
  shows "fs_print_string r w =
    Inr (w\<lparr>out := out w @ takeWhile (\<lambda>c. c \<noteq> CHR 0x00) bs @ [CHR 0x0A]\<rparr>)"
proof -
  from c obtain b j where p: "ptr s = Ptr b j" and b: "b < length (mem w)"
    and n: "0 \<le> sint (len s)" and fits: "j + length_of s \<le> length (mem w ! b)"
    by (cases "ptr s") (simp_all add: constructed_def readable_def)
  from bs p have tk: "take (length_of s) (drop j (mem w ! b)) = map Some bs"
    by (simp add: content_def bytes_at_def)
  from arg_cong [OF tk, of length] fits have k: "length_of s = length bs"
    by simp
  have split: "drop j (mem w ! b) = map Some bs @ drop (length_of s) (drop j (mem w ! b))"
    using append_take_drop_id [of "length_of s" "drop j (mem w ! b)"] unfolding tk
    by (rule sym)
  from n k have prec: "nat (sint (len s)) = length bs"
    by (simp add: length_of_def)
  from fits have j: "j \<le> length (mem w ! b)"
    by simp
  have "printf_s (sint (len s)) (ptr s) (mem w) = Inr (takeWhile (\<lambda>c. c \<noteq> CHR 0x00) bs)"
    using b j n by (simp add: printf_s_def p prec) (subst split, rule print_chars_bytes)
  with s p show ?thesis
    by (simp add: fs_print_string_def)
qed

text \<open>On a content without a zero byte, print writes all of it.\<close>

lemma fs_print_string_no_zero:
  assumes "deref w r = Inr s" and "constructed (mem w) s"
    and "content (mem w) s = map Some bs" and "CHR 0x00 \<notin> set bs"
  shows "fs_print_string r w = Inr (w\<lparr>out := out w @ bs @ [CHR 0x0A]\<rparr>)"
proof -
  from assms(4) have "takeWhile (\<lambda>c. c \<noteq> CHR 0x00) bs = bs"
    by (intro takeWhile_eq_all_conv [THEN iffD2]) auto
  with fs_print_string_bytes [OF assms(1-3)] show ?thesis
    by simp
qed

text \<open>
  Claim C2. Print on a value with a non-null handle is to write exactly \<open>length\<close> bytes
  of the content, zero bytes among them, and a newline. The code does not: the value of
  length 3 that \<^verbatim>\<open>fs_string_from_literal\<close> builds from the bytes \<open>a\<close>, zero, \<open>b\<close> is
  printed as \<open>a\<close> and a newline, since \<^verbatim>\<open>%.*s\<close> stops at the first zero byte.
\<close>

theorem fs_print_string_embedded_zero:
  "fs_string_from_literal True (Ptr 2 0) 3 demo =
     Inr (\<lparr>ptr = Ptr 4 0, len = 3, cap = 3\<rparr>,
          demo\<lparr>mem := mem demo @
            [[Some CHR ''a'', Some CHR 0x00, Some CHR ''b'', Some CHR 0x00]]\<rparr>) \<and>
   content (mem demo @ [[Some CHR ''a'', Some CHR 0x00, Some CHR ''b'', Some CHR 0x00]])
     \<lparr>ptr = Ptr 4 0, len = 3, cap = 3\<rparr> = map Some [CHR ''a'', CHR 0x00, CHR ''b''] \<and>
   fs_print_string 5
     (keep \<lparr>ptr = Ptr 4 0, len = 3, cap = 3\<rparr>
        (demo\<lparr>mem := mem demo @
          [[Some CHR ''a'', Some CHR 0x00, Some CHR ''b'', Some CHR 0x00]]\<rparr>)) =
     Inr ((keep \<lparr>ptr = Ptr 4 0, len = 3, cap = 3\<rparr>
        (demo\<lparr>mem := mem demo @
          [[Some CHR ''a'', Some CHR 0x00, Some CHR ''b'', Some CHR 0x00]]\<rparr>))
          \<lparr>out := ''a'' @ [CHR 0x0A]\<rparr>) \<and>
   fs_print_string 5
     (keep \<lparr>ptr = Ptr 4 0, len = 3, cap = 3\<rparr>
        (demo\<lparr>mem := mem demo @
          [[Some CHR ''a'', Some CHR 0x00, Some CHR ''b'', Some CHR 0x00]]\<rparr>)) \<noteq>
     Inr ((keep \<lparr>ptr = Ptr 4 0, len = 3, cap = 3\<rparr>
        (demo\<lparr>mem := mem demo @
          [[Some CHR ''a'', Some CHR 0x00, Some CHR ''b'', Some CHR 0x00]]\<rparr>))
          \<lparr>out := [CHR ''a'', CHR 0x00, CHR ''b''] @ [CHR 0x0A]\<rparr>)"
  by (simp add: demo_def keep_def fs_string_from_literal_def fs_string_alloc_def malloc_def
      size_t_of_def store_byte_def memcpy_def content_def bytes_at_def length_of_def
      fs_print_string_def deref_def printf_s_def numeral_eq_Suc)

end
